theory Spec2Isabelle
  imports Main
begin

section \<open>JavaScript values used by the dashboard\<close>

text \<open>
  \<open>new Date(event.date)\<close> is either a time value (milliseconds since the epoch) or the
  Invalid Date, whose time value is NaN.
\<close>

datatype js_date = InvalidDate | DateAt int

text \<open>
  \<open>x?.f(...) || 0\<close> on a number: \<open>undefined\<close> (the optional chain short-circuited) and
  \<open>0\<close> are both falsy and give \<open>0\<close>; any other number is returned as it is.
\<close>

definition or_zero :: "'a::zero option \<Rightarrow> 'a" where
  "or_zero v = (case v of None \<Rightarrow> 0 | Some n \<Rightarrow> (if n = 0 then 0 else n))"

text \<open>
  \<open>x?.filter(...) || []\<close> on an array: only \<open>undefined\<close> is falsy, an array (also the
  empty one) is truthy and is returned as it is.
\<close>

definition or_empty :: "'a list option \<Rightarrow> 'a list" where
  "or_empty v = (case v of None \<Rightarrow> [] | Some xs \<Rightarrow> xs)"

text \<open>A string is falsy exactly when it is \<open>null\<close>/\<open>undefined\<close> or empty.\<close>

definition truthy :: "string option \<Rightarrow> bool" where
  "truthy v = (case v of None \<Rightarrow> False | Some s \<Rightarrow> s \<noteq> [])"

section \<open>Events and the aggregation layer (OrganizationDashboard.tsx, stats)\<close>

text \<open>
  The fields of an event row that the dashboard's aggregation reads. \<open>date\<close> holds the
  value of \<open>new Date(event.date)\<close>; \<open>current_volunteers\<close> is a nullable integer column
  (\<open>None\<close> is \<open>null\<close>).
\<close>

record event =
  ev_id :: string
  date :: js_date
  current_volunteers :: "int option"

text \<open>
  \<open>isPast\<close> of date-fns is \<open>+toDate(date) < Date.now()\<close>: every call reads the clock,
  and a comparison with NaN is false. The first argument is the reading of
  \<open>Date.now()\<close> that the call takes.
\<close>

fun isPast :: "int \<Rightarrow> js_date \<Rightarrow> bool" where
  "isPast now InvalidDate = False"
| "isPast now (DateAt t) = (t < now)"

text \<open>
  The clock during one evaluation of \<open>stats\<close>: \<open>clock k\<close> is what the call number \<open>k\<close>
  of \<open>Date.now()\<close> reads, counting from 0.
\<close>

type_synonym clock = "nat \<Rightarrow> int"

text \<open>
  \<open>events.filter(event => p(event))\<close> for a predicate that reads the clock once at each
  call: the element at position \<open>i\<close> is tested with the reading number \<open>k + i\<close>, where
  \<open>k\<close> readings were taken before the pass.
\<close>

fun filter_reading :: "clock \<Rightarrow> nat \<Rightarrow> (int \<Rightarrow> event \<Rightarrow> bool) \<Rightarrow> event list \<Rightarrow> event list" where
  "filter_reading clock k p [] = []"
| "filter_reading clock k p (e # es) =
     (if p (clock k) e then e # filter_reading clock (Suc k) p es
      else filter_reading clock (Suc k) p es)"

record dashboard_stats =
  totalEvents :: nat
  activeEvents :: nat
  totalVolunteers :: int
  completedEvents :: nat

text \<open>
  \<open>events\<close> is the \<open>data\<close> of the events query: \<open>None\<close> while it is \<open>undefined\<close>. The
  properties are evaluated in the order they are written: the pass of \<open>activeEvents\<close>
  takes the first \<open>events.length\<close> readings of the clock, the pass of \<open>completedEvents\<close>
  the next \<open>events.length\<close> ones.
\<close>

definition stats :: "clock \<Rightarrow> event list option \<Rightarrow> dashboard_stats" where
  "stats clock events =
     \<lparr> totalEvents = or_zero (map_option length events),
       activeEvents =
         or_zero (map_option
           (\<lambda>es. length (filter_reading clock 0 (\<lambda>now e. \<not> isPast now (date e)) es)) events),
       totalVolunteers =
         or_zero (map_option
           (\<lambda>es. foldl (\<lambda>acc e. acc + or_zero (current_volunteers e)) 0 es) events),
       completedEvents =
         or_zero (map_option
           (\<lambda>es. length (filter_reading clock (length es) (\<lambda>now e. isPast now (date e)) es))
           events) \<rparr>"

text \<open>A clock that reads the same instant at every call.\<close>

definition steady_clock :: "int \<Rightarrow> clock" where
  "steady_clock now = (\<lambda>k. now)"

text \<open>A clock that reads 1000 at the first call and 1001 from then on.\<close>

definition ticking_clock :: clock where
  "ticking_clock = (\<lambda>k. if k = 0 then 1000 else 1001)"

text \<open>
  The spec's reading of an active event: the strict comparison \<open>now < eventDateTime\<close>.
\<close>

fun spec_active :: "int \<Rightarrow> event \<Rightarrow> bool" where
  "spec_active now e = (case date e of InvalidDate \<Rightarrow> False | DateAt t \<Rightarrow> now < t)"

text \<open>
  Comparisons of an event's time value with an instant; an invalid date has no time
  value and satisfies neither.
\<close>

fun on_or_after :: "int \<Rightarrow> event \<Rightarrow> bool" where
  "on_or_after now e = (case date e of InvalidDate \<Rightarrow> False | DateAt t \<Rightarrow> now \<le> t)"

fun before :: "int \<Rightarrow> event \<Rightarrow> bool" where
  "before now e = (case date e of InvalidDate \<Rightarrow> False | DateAt t \<Rightarrow> t < now)"

fun valid_date :: "event \<Rightarrow> bool" where
  "valid_date e = (case date e of InvalidDate \<Rightarrow> False | DateAt t \<Rightarrow> True)"

fun volunteers_of :: "event \<Rightarrow> int" where
  "volunteers_of e = (case current_volunteers e of None \<Rightarrow> 0 | Some v \<Rightarrow> v)"

section \<open>Registrations (OrganizationDashboard.tsx)\<close>

record profile =
  full_name :: "string option"
  phone :: "string option"
  profile_image_url :: "string option"

text \<open>A row of the registrations select, as the store returns it.\<close>

record reg_row =
  reg_id :: string
  event_id :: string
  user_id :: "string option"
  registration_time :: string
  emergency_contact :: "string option"
  dietary_restrictions :: "string option"
  reg_notes :: "string option"
  profiles :: "profile option"

text \<open>
  The value read from \<open>reg.user_email\<close>: \<open>undefined\<close> (also when the row has no such
  property), \<open>null\<close>, or a string.
\<close>

datatype js_email = Undefined | Null | Email string

text \<open>A registration as the query hands it to the view: the row and what \<open>user_email\<close> reads.\<close>

record registration =
  row :: reg_row
  user_email :: js_email

text \<open>A row returned as it came from the store has no \<open>user_email\<close> property.\<close>

definition unenriched :: "reg_row \<Rightarrow> registration" where
  "unenriched r = \<lparr> row = r, user_email = Undefined \<rparr>"

definition getEventRegistrations :: "registration list option \<Rightarrow> string \<Rightarrow> registration list" where
  "getEventRegistrations registrations eventId =
     or_empty (map_option (filter (\<lambda>reg. event_id (row reg) = eventId)) registrations)"

section \<open>The session store (AuthContext.tsx, AuthProvider)\<close>

text \<open>A value thrown or returned as \<open>error\<close>: the identity provider's error or \<open>new Error(msg)\<close>.\<close>

datatype js_error = JsError string

record auth_user =
  uid :: string
  mail :: string

text \<open>The provider's session; \<open>session?.user ?? null\<close> reads its user.\<close>

record auth_session =
  session_user :: "auth_user option"

definition user_of_session :: "auth_session option \<Rightarrow> auth_user option" where
  "user_of_session session = (case session of None \<Rightarrow> None | Some s \<Rightarrow> session_user s)"

text \<open>An awaited promise either rejects (the \<open>await\<close> throws) or resolves to a value.\<close>

datatype 'a awaited = Rejected js_error | Resolved 'a

text \<open>The \<open>{ data: { user }, error }\<close> that \<open>signUp\<close> and \<open>signInWithPassword\<close> resolve to.\<close>

record auth_response =
  resp_user :: "auth_user option"
  resp_error :: "js_error option"

text \<open>
  The identity provider (\<open>supabase.auth\<close>), an external collaborator: what each call
  answers.
\<close>

record auth_backend =
  auth_signUp :: "string \<Rightarrow> string \<Rightarrow> string \<Rightarrow> auth_response awaited"
  auth_signInWithPassword :: "string \<Rightarrow> string \<Rightarrow> auth_response awaited"
  auth_signOut :: "js_error option awaited"

text \<open>
  What an operation of the provider does to the outside, in program order.
  \<open>handleAuthNavigation\<close> and \<open>handleAuthError\<close> live in \<open>utils/auth-utils\<close>; they are
  recorded as calls. \<open>Delay ms\<close> is \<open>await new Promise(resolve => setTimeout(resolve, ms))\<close>.
\<close>

datatype action =
    CallSignUp string string string
  | CallSignInWithPassword string string
  | CallSignOut
  | Delay nat
  | Navigate string
  | HandleAuthNavigation string
  | HandleAuthError js_error
  | ToastSuccess string

record auth_state =
  user :: "auth_user option"
  loading :: bool

text \<open>\<open>useState(null)\<close> and \<open>useState(true)\<close>.\<close>

definition initial_auth_state :: auth_state where
  "initial_auth_state = \<lparr> user = None, loading = True \<rparr>"

text \<open>The body of \<open>getSession().then(...)\<close>.\<close>

definition getSession_then :: "auth_state \<Rightarrow> auth_session option \<Rightarrow> auth_state \<times> action list" where
  "getSession_then st session =
     (st\<lparr> user := user_of_session session, loading := False \<rparr>,
      case user_of_session session of
        None \<Rightarrow> []
      | Some u \<Rightarrow> [HandleAuthNavigation (uid u)])"

text \<open>The listener given to \<open>onAuthStateChange\<close>; its first argument is the event's name.\<close>

definition onAuthStateChange :: "auth_state \<Rightarrow> string \<Rightarrow> auth_session option \<Rightarrow> auth_state \<times> action list" where
  "onAuthStateChange st event_name session =
     (st\<lparr> user := user_of_session session, loading := False \<rparr>,
      case user_of_session session of
        None \<Rightarrow> []
      | Some u \<Rightarrow> [HandleAuthNavigation (uid u)])"

definition signUp :: "auth_backend \<Rightarrow> string \<Rightarrow> string \<Rightarrow> string \<Rightarrow> action list" where
  "signUp b email password role =
     CallSignUp email password role #
     (case auth_signUp b email password role of
        Rejected e \<Rightarrow> [HandleAuthError e]
      | Resolved signUpData \<Rightarrow>
          (case resp_error signUpData of
             Some signUpError \<Rightarrow> [HandleAuthError signUpError]
           | None \<Rightarrow>
               (case resp_user signUpData of
                  None \<Rightarrow> [HandleAuthError (JsError ''No user data returned'')]
                | Some u \<Rightarrow>
                    CallSignInWithPassword email password #
                    (case auth_signInWithPassword b email password of
                       Rejected e \<Rightarrow> [HandleAuthError e]
                     | Resolved signInData \<Rightarrow>
                         (case resp_error signInData of
                            Some signInError \<Rightarrow> [HandleAuthError signInError]
                          | None \<Rightarrow>
                              Delay 1500 #
                              (if uid u \<noteq> []
                               then [HandleAuthNavigation (uid u),
                                     ToastSuccess ''Account created and logged in successfully!'']
                               else []))))))"

definition signIn :: "auth_backend \<Rightarrow> string \<Rightarrow> string \<Rightarrow> action list" where
  "signIn b email password =
     CallSignInWithPassword email password #
     (case auth_signInWithPassword b email password of
        Rejected e \<Rightarrow> [HandleAuthError e]
      | Resolved signInData \<Rightarrow>
          (case resp_error signInData of
             Some signInError \<Rightarrow> [HandleAuthError signInError]
           | None \<Rightarrow>
               (case resp_user signInData of
                  None \<Rightarrow> [HandleAuthError (JsError ''No user data returned'')]
                | Some u \<Rightarrow>
                    ToastSuccess ''Logged in successfully!'' #
                    (if uid u \<noteq> [] then [HandleAuthNavigation (uid u)] else []))))"

definition signOut :: "auth_backend \<Rightarrow> action list" where
  "signOut b =
     CallSignOut #
     (case auth_signOut b of
        Rejected e \<Rightarrow> [HandleAuthError e]
      | Resolved (Some error) \<Rightarrow> [HandleAuthError error]
      | Resolved None \<Rightarrow> [Navigate ''/login''])"

text \<open>
  Everything that can happen to a mounted provider: the restore resolves, the identity
  provider notifies a change, or a consumer calls one of the three operations (each
  with the backend that answers it). Only the first two write the state.
\<close>

datatype provider_event =
    GetSessionResolved "auth_session option"
  | AuthStateChange string "auth_session option"
  | SignUpCalled auth_backend string string string
  | SignInCalled auth_backend string string
  | SignOutCalled auth_backend

fun provider_step :: "auth_state \<Rightarrow> provider_event \<Rightarrow> auth_state \<times> action list" where
  "provider_step st (GetSessionResolved session) = getSession_then st session"
| "provider_step st (AuthStateChange event_name session) = onAuthStateChange st event_name session"
| "provider_step st (SignUpCalled b email password role) = (st, signUp b email password role)"
| "provider_step st (SignInCalled b email password) = (st, signIn b email password)"
| "provider_step st (SignOutCalled b) = (st, signOut b)"

fun provider_run :: "auth_state \<Rightarrow> provider_event list \<Rightarrow> auth_state" where
  "provider_run st [] = st"
| "provider_run st (e # es) = provider_run (fst (provider_step st e)) es"

text \<open>The events whose handler calls \<open>setLoading(false)\<close>.\<close>

fun settles :: "provider_event \<Rightarrow> bool" where
  "settles (GetSessionResolved session) = True"
| "settles (AuthStateChange event_name session) = True"
| "settles e = False"

text \<open>A backend whose three calls answer the given values whatever their arguments.\<close>

definition constant_backend ::
  "auth_response awaited \<Rightarrow> auth_response awaited \<Rightarrow> js_error option awaited \<Rightarrow> auth_backend" where
  "constant_backend up inn out =
     \<lparr> auth_signUp = (\<lambda>email password role. up),
       auth_signInWithPassword = (\<lambda>email password. inn),
       auth_signOut = out \<rparr>"

section \<open>The query cache and the change-notification callbacks (OrganizationDashboard.tsx)\<close>

text \<open>
  A query key \<open>[kind, user?.id]\<close>: the query kind and the scoping user id
  (\<open>None\<close> when \<open>user?.id\<close> is \<open>undefined\<close>).
\<close>

type_synonym query_key = "string \<times> string option"

definition organization_events_key :: "auth_user option \<Rightarrow> query_key" where
  "organization_events_key u = (''organization-events'', map_option uid u)"

definition organization_registrations_key :: "auth_user option \<Rightarrow> query_key" where
  "organization_registrations_key u = (''organization-registrations'', map_option uid u)"

text \<open>
  The query client of react-query, as far as the dashboard writes it: each cached query
  has an invalidation flag, and \<open>invalidateQueries({ queryKey })\<close> sets the flag of the
  queries under that key (it creates no entry).
\<close>

record cache_entry =
  isInvalidated :: bool

type_synonym query_cache = "query_key \<Rightarrow> cache_entry option"

definition invalidated :: "cache_entry \<Rightarrow> cache_entry" where
  "invalidated e = e\<lparr> isInvalidated := True \<rparr>"

definition invalidateQueries :: "query_key \<Rightarrow> query_cache \<Rightarrow> query_cache" where
  "invalidateQueries k qc = (\<lambda>k'. if k' = k then map_option invalidated (qc k') else qc k')"

datatype change_kind = INSERT | UPDATE | DELETE

text \<open>The payload of a change notification; the callbacks only log it.\<close>

record payload =
  eventType :: change_kind
  payload_table :: string

datatype console_entry =
    ConsoleLog string payload
  | ConsoleError string js_error

text \<open>The callback of the events channel; \<open>u\<close> is the user its effect closed over.\<close>

definition events_changed :: "auth_user \<Rightarrow> payload \<Rightarrow> query_cache \<Rightarrow> console_entry list \<times> query_cache" where
  "events_changed u p qc =
     ([ConsoleLog ''Events changed, refreshing data:'' p],
      invalidateQueries (organization_events_key (Some u)) qc)"

text \<open>The callback of the registrations channel.\<close>

definition registrations_changed :: "auth_user \<Rightarrow> payload \<Rightarrow> query_cache \<Rightarrow> console_entry list \<times> query_cache" where
  "registrations_changed u p qc =
     ([ConsoleLog ''Registration changes detected, refreshing data:'' p],
      invalidateQueries (organization_events_key (Some u))
        (invalidateQueries (organization_registrations_key (Some u)) qc))"

datatype callback = EventsChanged auth_user | RegistrationsChanged auth_user

fun run_callback :: "callback \<Rightarrow> payload \<Rightarrow> query_cache \<Rightarrow> console_entry list \<times> query_cache" where
  "run_callback (EventsChanged u) p qc = events_changed u p qc"
| "run_callback (RegistrationsChanged u) p qc = registrations_changed u p qc"

section \<open>The registrations fetch (OrganizationDashboard.tsx, queryFn of organization-registrations)\<close>

text \<open>A row of the secondary select on \<open>profiles\<close>: \<open>id\<close> and \<open>user_email\<close>.\<close>

record email_row =
  profile_id :: string
  profile_user_email :: "string option"

text \<open>
  The relational store, an external collaborator: what the two selects answer for the
  list given to \<open>.in(...)\<close>. A select resolves to \<open>{ data, error }\<close>: \<open>Inl\<close> is a non-null
  \<open>error\<close>, \<open>Inr\<close> the rows.
\<close>

record store =
  select_registrations :: "string list \<Rightarrow> js_error + reg_row list"
  select_user_emails :: "string list \<Rightarrow> js_error + email_row list"

text \<open>\<open>data.map(reg => reg.user_id).filter(Boolean)\<close>.\<close>

definition userIds_of :: "reg_row list \<Rightarrow> string list" where
  "userIds_of data = map the (filter truthy (map user_id data))"

text \<open>
  The lookup object filled by \<open>forEach\<close>: a later row overwrites an earlier one with the
  same id. (The keys are user ids; the properties an empty object inherits are left out.)
\<close>

definition emailMap_of :: "email_row list \<Rightarrow> (string \<rightharpoonup> js_email)" where
  "emailMap_of userEmailsData =
     foldl (\<lambda>m u. m(profile_id u \<mapsto> (case profile_user_email u of None \<Rightarrow> Null | Some s \<Rightarrow> Email s)))
       Map.empty userEmailsData"

definition lookup_email :: "(string \<rightharpoonup> js_email) \<Rightarrow> string \<Rightarrow> js_email" where
  "lookup_email emailMap k = (case emailMap k of None \<Rightarrow> Undefined | Some v \<Rightarrow> v)"

text \<open>
  The fetch returns what it logged and either the error it threw (\<open>Inl\<close>) or the
  registrations it resolved to (\<open>Inr\<close>).
\<close>

definition registrations_queryFn ::
  "store \<Rightarrow> event list option \<Rightarrow> console_entry list \<times> (js_error + registration list)" where
  "registrations_queryFn st events =
     (case events of
        None \<Rightarrow> ([], Inr [])
      | Some es \<Rightarrow>
          if es = [] then ([], Inr [])
          else
            (case select_registrations st (map ev_id es) of
               Inl error \<Rightarrow> ([], Inl error)
             | Inr data \<Rightarrow>
                 if userIds_of data = [] then ([], Inr (map unenriched data))
                 else
                   (case select_user_emails st (userIds_of data) of
                      Inl emailError \<Rightarrow>
                        ([ConsoleError ''Error fetching user emails:'' emailError],
                         Inr (map unenriched data))
                    | Inr userEmailsData \<Rightarrow>
                        ([], Inr (map (\<lambda>reg.
                               \<lparr> row = reg,
                                 user_email =
                                   (if truthy (user_id reg)
                                    then lookup_email (emailMap_of userEmailsData) (the (user_id reg))
                                    else Null) \<rparr>) data)))))"

text \<open>A store whose two selects answer the given values whatever their arguments.\<close>

definition constant_store :: "(js_error + reg_row list) \<Rightarrow> (js_error + email_row list) \<Rightarrow> store" where
  "constant_store regs emails =
     \<lparr> select_registrations = (\<lambda>ids. regs), select_user_emails = (\<lambda>ids. emails) \<rparr>"

section \<open>Channels and the subscription effects (OrganizationDashboard.tsx, useEffect)\<close>

text \<open>
  A channel object of the realtime client. \<open>ch_ref\<close> stands for the object's identity:
  \<open>removeChannel\<close> removes the very object it is given.
\<close>

record channel =
  ch_ref :: nat
  ch_name :: string
  ch_event :: string
  ch_schema :: string
  ch_table :: string
  ch_filter :: string
  ch_callback :: callback

datatype channel_action = Subscribed channel | Removed channel

text \<open>
  The realtime client: the channels that are open, the next fresh object identity, and
  the history of its \<open>subscribe\<close> and \<open>removeChannel\<close> calls, oldest first.
\<close>

record realtime_client =
  channels :: "channel list"
  next_ref :: nat
  history :: "channel_action list"

definition new_client :: realtime_client where
  "new_client = \<lparr> channels = [], next_ref = 0, history = [] \<rparr>"

text \<open>\<open>supabase.channel(name).on('postgres_changes', { event, schema, table, filter }, cb).subscribe()\<close>.\<close>

definition subscribe ::
  "string \<Rightarrow> string \<Rightarrow> string \<Rightarrow> callback \<Rightarrow> realtime_client \<Rightarrow> channel \<times> realtime_client" where
  "subscribe name table flt cb c =
     (let ch = \<lparr> ch_ref = next_ref c, ch_name = name, ch_event = ''*'', ch_schema = ''public'',
                 ch_table = table, ch_filter = flt, ch_callback = cb \<rparr>
      in (ch, c\<lparr> channels := channels c @ [ch],
                next_ref := Suc (next_ref c),
                history := history c @ [Subscribed ch] \<rparr>))"

definition removeChannel :: "channel \<Rightarrow> realtime_client \<Rightarrow> realtime_client" where
  "removeChannel ch c =
     c\<lparr> channels := filter (\<lambda>x. ch_ref x \<noteq> ch_ref ch) (channels c),
        history := history c @ [Removed ch] \<rparr>"

text \<open>\<open>ids.join(',')\<close>.\<close>

fun join :: "string \<Rightarrow> string list \<Rightarrow> string" where
  "join sep [] = []"
| "join sep [x] = x"
| "join sep (x # y # ys) = x @ sep @ join sep (y # ys)"

definition events_filter :: "auth_user \<Rightarrow> string" where
  "events_filter u = ''organization_id=eq.'' @ uid u"

definition registrations_filter :: "string list \<Rightarrow> string" where
  "registrations_filter eventIds = ''event_id=in.('' @ join '','' eventIds @ '')''"

text \<open>
  The body of the first effect. It returns the channel its cleanup closes over
  (\<open>None\<close> when the body returned early, so that there is no cleanup).
\<close>

definition events_effect :: "auth_user option \<Rightarrow> realtime_client \<Rightarrow> channel option \<times> realtime_client" where
  "events_effect usr c =
     (case usr of
        None \<Rightarrow> (None, c)
      | Some u \<Rightarrow>
          (let (ch, c') = subscribe ''organization-events-changes'' ''events'' (events_filter u)
                            (EventsChanged u) c
           in (Some ch, c')))"

text \<open>The body of the second effect.\<close>

definition registrations_effect ::
  "auth_user option \<Rightarrow> event list option \<Rightarrow> realtime_client \<Rightarrow> channel option \<times> realtime_client" where
  "registrations_effect usr events c =
     (case usr of
        None \<Rightarrow> (None, c)
      | Some u \<Rightarrow>
          (case events of
             None \<Rightarrow> (None, c)
           | Some es \<Rightarrow>
               if es = [] then (None, c)
               else if map ev_id es = [] then (None, c)
               else
                 (let (ch, c') = subscribe ''registrations-changes'' ''registrations''
                                   (registrations_filter (map ev_id es)) (RegistrationsChanged u) c
                  in (Some ch, c'))))"

text \<open>The cleanup an effect returned: \<open>supabase.removeChannel(channel)\<close>, or nothing.\<close>

definition cleanup :: "channel option \<Rightarrow> realtime_client \<Rightarrow> realtime_client" where
  "cleanup held c = (case held of None \<Rightarrow> c | Some ch \<Rightarrow> removeChannel ch c)"

section \<open>The life cycle of the mounted dashboard\<close>

text \<open>
  The dashboard view with the inputs its effects depend on, the channel each pending
  cleanup closes over, and the realtime client.
\<close>

record view =
  mounted :: bool
  view_user :: "auth_user option"
  view_events :: "event list option"
  events_held :: "channel option"
  registrations_held :: "channel option"
  client :: realtime_client

definition unmounted_view :: view where
  "unmounted_view =
     \<lparr> mounted = False, view_user = None, view_events = None,
       events_held = None, registrations_held = None, client = new_client \<rparr>"

text \<open>
  The view is mounted with a user and an events value, re-rendered with new ones, or
  unmounted. A dependency changes when its value does, and the two flags of a re-render
  say that \<open>user\<close> or \<open>events\<close> is a new object although its value is the same.
\<close>

datatype view_event =
    Mount "auth_user option" "event list option"
  | Rerender "auth_user option" bool "event list option" bool
  | Unmount

text \<open>
  React runs, at a commit, the cleanups of the effects whose dependencies changed and
  then the bodies of these effects, each group in the order of the effects. The first
  effect depends on \<open>user\<close>, the second on \<open>user\<close> and \<open>events\<close>
  (\<open>queryClient\<close> never changes).
\<close>

fun view_step :: "view \<Rightarrow> view_event \<Rightarrow> view" where
  "view_step v (Mount usr events) =
     (if mounted v then v
      else
        (let (eh, c1) = events_effect usr (client v);
             (rh, c2) = registrations_effect usr events c1
         in \<lparr> mounted = True, view_user = usr, view_events = events,
              events_held = eh, registrations_held = rh, client = c2 \<rparr>))"
| "view_step v (Rerender usr user_is_new events events_is_new) =
     (if \<not> mounted v then v
      else
        (let user_changed = (user_is_new \<or> usr \<noteq> view_user v);
             events_changed = (events_is_new \<or> events \<noteq> view_events v);
             c1 = (if user_changed then cleanup (events_held v) (client v) else client v);
             c2 = (if user_changed \<or> events_changed then cleanup (registrations_held v) c1 else c1);
             (eh, c3) = (if user_changed then events_effect usr c2 else (events_held v, c2));
             (rh, c4) = (if user_changed \<or> events_changed then registrations_effect usr events c3
                         else (registrations_held v, c3))
         in \<lparr> mounted = True, view_user = usr, view_events = events,
              events_held = eh, registrations_held = rh, client = c4 \<rparr>))"
| "view_step v Unmount =
     (if \<not> mounted v then v
      else
        (let c1 = cleanup (events_held v) (client v);
             c2 = cleanup (registrations_held v) c1
         in \<lparr> mounted = False, view_user = view_user v, view_events = view_events v,
              events_held = None, registrations_held = None, client = c2 \<rparr>))"

fun view_run :: "view \<Rightarrow> view_event list \<Rightarrow> view" where
  "view_run v [] = v"
| "view_run v (e # es) = view_run (view_step v e) es"

text \<open>The (table, filter) pair of a channel.\<close>

definition subscription_of :: "channel \<Rightarrow> string \<times> string" where
  "subscription_of ch = (ch_table ch, ch_filter ch)"

text \<open>
  Replaying a history of the client from no open channel: the channels open after it,
  and whether every \<open>subscribe\<close> of the history happened while no channel on the same
  table was open (so with the earlier channel on that table, whatever its filter,
  already removed).
\<close>

fun replay_action :: "channel list \<times> bool \<Rightarrow> channel_action \<Rightarrow> channel list \<times> bool" where
  "replay_action (opened, ok) (Subscribed ch) =
     (opened @ [ch], ok \<and> ch_table ch \<notin> set (map ch_table opened))"
| "replay_action (opened, ok) (Removed ch) =
     (filter (\<lambda>x. ch_ref x \<noteq> ch_ref ch) opened, ok)"

definition replay :: "channel_action list \<Rightarrow> channel list \<times> bool" where
  "replay acts = foldl replay_action ([], True) acts"

definition closed_before_reopened :: "channel_action list \<Rightarrow> bool" where
  "closed_before_reopened acts = snd (replay acts)"

text \<open>The invariant of the life cycle, on the client and the two held channels.\<close>

definition held_list :: "channel option \<Rightarrow> channel list" where
  "held_list held = (case held of None \<Rightarrow> [] | Some ch \<Rightarrow> [ch])"

definition held_on :: "string \<Rightarrow> realtime_client \<Rightarrow> channel option \<Rightarrow> bool" where
  "held_on table c held =
     (case held of None \<Rightarrow> True | Some ch \<Rightarrow> ch_table ch = table \<and> ch_ref ch < next_ref c)"

definition client_inv :: "realtime_client \<Rightarrow> channel option \<Rightarrow> channel option \<Rightarrow> bool" where
  "client_inv c eh rh =
     (channels c = held_list eh @ held_list rh
      \<and> held_on ''events'' c eh \<and> held_on ''registrations'' c rh
      \<and> distinct (map ch_ref (channels c))
      \<and> replay (history c) = (channels c, True))"

definition view_inv :: "view \<Rightarrow> bool" where
  "view_inv v =
     (client_inv (client v) (events_held v) (registrations_held v)
      \<and> (mounted v \<or> (events_held v = None \<and> registrations_held v = None)))"

section \<open>Concrete inputs\<close>

definition example_user :: auth_user where
  "example_user = \<lparr> uid = ''org-1'', mail = ''org@example.org'' \<rparr>"

definition example_event :: "string \<Rightarrow> event" where
  "example_event i = \<lparr> ev_id = i, date = DateAt 0, current_volunteers = Some 0 \<rparr>"

text \<open>An event with the given id and time value.\<close>

definition event_at :: "string \<Rightarrow> int \<Rightarrow> event" where
  "event_at i t = \<lparr> ev_id = i, date = DateAt t, current_volunteers = Some 0 \<rparr>"

text \<open>A cache that holds both queries of \<open>example_user\<close>, neither invalidated.\<close>

definition example_cache :: query_cache where
  "example_cache =
     (\<lambda>k. if k = organization_events_key (Some example_user)
              \<or> k = organization_registrations_key (Some example_user)
          then Some \<lparr> isInvalidated = False \<rparr> else None)"

definition example_payload :: payload where
  "example_payload = \<lparr> eventType = INSERT, payload_table = ''registrations'' \<rparr>"

definition example_row :: reg_row where
  "example_row =
     \<lparr> reg_id = ''r1'', event_id = ''1'', user_id = Some ''vol-1'', registration_time = ''t'',
       emergency_contact = None, dietary_restrictions = None, reg_notes = None,
       profiles = None \<rparr>"

text \<open>The dashboard mounted for \<open>example_user\<close> with the events 1 and 2.\<close>

definition example_view :: view where
  "example_view =
     view_run unmounted_view
       [Mount (Some example_user) (Some [example_event ''1'', example_event ''2''])]"

text \<open>The registrations channel that \<open>example_view\<close> holds.\<close>

definition example_channel :: channel where
  "example_channel =
     \<lparr> ch_ref = 1, ch_name = ''registrations-changes'', ch_event = ''*'', ch_schema = ''public'',
       ch_table = ''registrations'', ch_filter = ''event_id=in.(1,2)'',
       ch_callback = RegistrationsChanged example_user \<rparr>"

section \<open>Properties of the aggregation layer\<close>

lemma or_zero_Some: "or_zero (Some n) = n"
  by (simp add: or_zero_def)

lemma or_zero_None: "or_zero None = 0"
  by (simp add: or_zero_def)

lemma or_zero_volunteers: "or_zero (current_volunteers e) = volunteers_of e"
  by (cases "current_volunteers e") (simp_all add: or_zero_Some or_zero_None)

lemma foldl_add_volunteers:
  "foldl (\<lambda>acc e. acc + or_zero (current_volunteers e)) a es = a + sum_list (map volunteers_of es)"
  unfolding or_zero_volunteers by (induction es arbitrary: a) simp_all

lemma filter_reading_steady:
  "(\<And>i. i < length es \<Longrightarrow> clock (k + i) = now)
     \<Longrightarrow> filter_reading clock k p es = filter (p now) es"
proof (induction es arbitrary: k)
  case Nil
  then show ?case by simp
next
  case (Cons e es)
  from Cons.prems [of 0] have k: "clock k = now" by simp
  have "\<And>i. i < length es \<Longrightarrow> clock (Suc k + i) = now"
    using Cons.prems [of "Suc i" for i] by simp
  then have "filter_reading clock (Suc k) p es = filter (p now) es"
    by (rule Cons.IH)
  with k show ?case by simp
qed

lemma active_pass_steady:
  assumes "\<forall>k < 2 * length es. clock k = now"
  shows "filter_reading clock 0 (\<lambda>now e. \<not> isPast now (date e)) es
           = filter (\<lambda>e. \<not> isPast now (date e)) es"
  using assms by (intro filter_reading_steady) simp

lemma completed_pass_steady:
  assumes "\<forall>k < 2 * length es. clock k = now"
  shows "filter_reading clock (length es) (\<lambda>now e. isPast now (date e)) es
           = filter (\<lambda>e. isPast now (date e)) es"
  using assms by (intro filter_reading_steady) simp

lemma isPast_before: "valid_date e \<Longrightarrow> isPast now (date e) = before now e"
  by (cases "date e") auto

lemma not_isPast_on_or_after: "valid_date e \<Longrightarrow> (\<not> isPast now (date e)) = on_or_after now e"
  by (cases "date e") auto

text \<open>
  C1 (as the spec words it, refuted). The spec has the two counts partition the collection
  for every collection and all dates. Each call of \<open>isPast\<close> reads the clock, and the two
  counts are taken in two passes: with one event dated 1000, a clock that reads 1000 in
  the first pass and 1001 in the second counts the event as active and as completed, so
  the counts add up to 2 while \<open>totalEvents\<close> is 1.
\<close>

theorem stats_partition_ticking_counterexample:
  "activeEvents (stats ticking_clock
       (Some [\<lparr> ev_id = ''1'', date = DateAt 1000, current_volunteers = Some 0 \<rparr>]))
   + completedEvents (stats ticking_clock
       (Some [\<lparr> ev_id = ''1'', date = DateAt 1000, current_volunteers = Some 0 \<rparr>]))
   \<noteq> totalEvents (stats ticking_clock
       (Some [\<lparr> ev_id = ''1'', date = DateAt 1000, current_volunteers = Some 0 \<rparr>]))"
  by (simp add: stats_def or_zero_Some ticking_clock_def)

text \<open>
  C1 (amended). For every cached event collection, \<open>totalEvents\<close> is the number of cached
  events (0 while the collection is undefined), and whenever every reading of the clock
  taken during the evaluation is the same instant, the active and the completed events
  partition the collection: \<open>activeEvents + completedEvents = totalEvents\<close>.
\<close>

theorem stats_partition_steady:
  assumes "\<forall>k < 2 * length es. clock k = now"
  shows "totalEvents (stats clock (Some es)) = length es
    \<and> activeEvents (stats clock (Some es)) + completedEvents (stats clock (Some es))
        = totalEvents (stats clock (Some es))
    \<and> totalEvents (stats clock None) = 0
    \<and> activeEvents (stats clock None) + completedEvents (stats clock None)
        = totalEvents (stats clock None)"
proof -
  have total: "totalEvents (stats clock (Some es)) = length es"
    by (simp add: stats_def or_zero_Some)
  have "length (filter (\<lambda>e. \<not> isPast now (date e)) es)
          + length (filter (\<lambda>e. isPast now (date e)) es) = length es"
    using sum_length_filter_compl [of "\<lambda>e. isPast now (date e)" es] by simp
  then have part: "activeEvents (stats clock (Some es)) + completedEvents (stats clock (Some es))
        = totalEvents (stats clock (Some es))"
    by (simp add: stats_def or_zero_Some active_pass_steady [OF assms]
          completed_pass_steady [OF assms])
  have none: "totalEvents (stats clock None) = 0
      \<and> activeEvents (stats clock None) + completedEvents (stats clock None)
          = totalEvents (stats clock None)"
    by (simp add: stats_def or_zero_None)
  from total part none show ?thesis by simp
qed

theorem stats_partition_steady_witness:
  "activeEvents (stats (steady_clock 1000) (Some [event_at ''1'' 900, event_at ''2'' 1100])) = 1
   \<and> completedEvents (stats (steady_clock 1000) (Some [event_at ''1'' 900, event_at ''2'' 1100])) = 1
   \<and> totalEvents (stats (steady_clock 1000) (Some [event_at ''1'' 900, event_at ''2'' 1100])) = 2"
proof -
  have steady: "\<forall>k < 2 * length [event_at ''1'' 900, event_at ''2'' 1100]. steady_clock 1000 k = 1000"
    by (simp add: steady_clock_def)
  have active: "activeEvents (stats (steady_clock 1000)
      (Some [event_at ''1'' 900, event_at ''2'' 1100])) = 1"
    by (simp add: stats_def or_zero_Some steady_clock_def event_at_def)
  from stats_partition_steady [OF steady] active show ?thesis
    by simp
qed

text \<open>
  C7. \<open>totalVolunteers\<close> is the sum of \<open>current_volunteers\<close> over all events of the
  collection, a null counter adding nothing; it is 0 while the collection is undefined.
\<close>

theorem totalVolunteers_sum:
  "totalVolunteers (stats clock (Some es)) = sum_list (map volunteers_of es)
   \<and> totalVolunteers (stats clock None) = 0"
  by (simp add: stats_def or_zero_Some or_zero_None foldl_add_volunteers)

text \<open>
  C4 (as the spec words it, refuted). The spec takes an event to be active when
  \<open>now < eventDateTime\<close> strictly, so that an event dated exactly \<open>now\<close> is not
  active. The code counts it as active: \<open>isPast\<close> is the strict \<open>date < now\<close>, and
  \<open>activeEvents\<close> counts its negation.
\<close>

theorem activeEvents_strict_counterexample:
  "activeEvents (stats (steady_clock 1000)
       (Some [\<lparr> ev_id = ''1'', date = DateAt 1000, current_volunteers = Some 0 \<rparr>])) = 1
   \<and> length (filter (spec_active 1000)
         [\<lparr> ev_id = ''1'', date = DateAt 1000, current_volunteers = Some 0 \<rparr>]) = 0"
  by (simp add: stats_def or_zero_Some steady_clock_def)

text \<open>
  C4 (amended). For every cached event collection whose dates are valid and every
  evaluation in which each reading of the clock is the same instant \<open>now\<close>,
  \<open>activeEvents\<close> counts exactly the events with \<open>now \<le> eventDateTime\<close> (an event dated
  exactly \<open>now\<close> is counted as active), and \<open>completedEvents\<close> counts exactly the events
  with \<open>eventDateTime < now\<close>.
\<close>

theorem stats_active_completed:
  assumes "\<forall>k < 2 * length es. clock k = now"
    and "\<forall>e \<in> set es. valid_date e"
  shows "activeEvents (stats clock (Some es)) = length (filter (on_or_after now) es)
    \<and> completedEvents (stats clock (Some es)) = length (filter (before now) es)"
proof -
  have a: "filter (\<lambda>e. \<not> isPast now (date e)) es = filter (on_or_after now) es"
    using assms(2) by (intro filter_cong refl not_isPast_on_or_after) blast
  have c: "filter (\<lambda>e. isPast now (date e)) es = filter (before now) es"
    using assms(2) by (intro filter_cong refl isPast_before) blast
  show ?thesis
    unfolding stats_def
    by (simp add: or_zero_Some active_pass_steady [OF assms(1)]
          completed_pass_steady [OF assms(1)] a c del: on_or_after.simps before.simps)
qed

theorem stats_active_completed_witness:
  "activeEvents (stats (steady_clock 1000)
         (Some [event_at ''1'' 999, event_at ''2'' 1000, event_at ''3'' 1001])) = 2
   \<and> completedEvents (stats (steady_clock 1000)
         (Some [event_at ''1'' 999, event_at ''2'' 1000, event_at ''3'' 1001])) = 1"
proof -
  have steady: "\<forall>k < 2 * length [event_at ''1'' 999, event_at ''2'' 1000, event_at ''3'' 1001].
       steady_clock 1000 k = 1000"
    by (simp add: steady_clock_def)
  have valid: "\<forall>e \<in> set [event_at ''1'' 999, event_at ''2'' 1000, event_at ''3'' 1001]. valid_date e"
    by (simp add: event_at_def)
  from stats_active_completed [OF steady valid] show ?thesis
    by (simp add: event_at_def)
qed

section \<open>Properties of the registration grouping\<close>

text \<open>
  C10. \<open>getEventRegistrations\<close> returns a list for every event id and every state of the
  registrations query: the empty list while the query has no data (\<open>undefined\<close>), and
  otherwise the cached registrations of that event, in their cached order.
\<close>

theorem getEventRegistrations_total:
  "getEventRegistrations None eventId = []
   \<and> getEventRegistrations (Some regs) eventId = filter (\<lambda>reg. event_id (row reg) = eventId) regs
   \<and> set (getEventRegistrations registrations eventId)
       = {reg \<in> set (or_empty registrations). event_id (row reg) = eventId}"
  by (cases registrations) (simp_all add: getEventRegistrations_def or_empty_def)

section \<open>Properties of the session store\<close>

text \<open>
  C3 (as the spec words it, refuted). The spec has \<open>signOut\<close> navigate to the login route
  on every run, also when the remote sign-out fails. When the remote call resolves with
  an error, the code throws it before \<open>navigate\<close> is reached: the run calls
  \<open>handleAuthError\<close> and does not navigate.
\<close>

theorem signOut_failure_counterexample:
  "Navigate ''/login'' \<notin> set (signOut (constant_backend
      (Rejected (JsError ''unused'')) (Rejected (JsError ''unused''))
      (Resolved (Some (JsError ''network'')))))"
  by (simp add: signOut_def constant_backend_def)

text \<open>
  C3 (amended). A run of \<open>signOut\<close> navigates to the login route exactly when the remote
  sign-out call resolves without an error; when the call resolves with an error or
  rejects, the run hands the error to \<open>handleAuthError\<close> and does not navigate.
\<close>

theorem signOut_navigates_iff_success:
  "(Navigate ''/login'' \<in> set (signOut b)) = (auth_signOut b = Resolved None)
   \<and> (signOut b = [CallSignOut, Navigate ''/login'']
        \<or> (\<exists>e. signOut b = [CallSignOut, HandleAuthError e]))"
  by (auto simp: signOut_def split: awaited.splits option.splits)

text \<open>
  C6. For every successful \<open>signUp\<close> (the remote sign-up resolves with a user and no
  error, and the remote sign-in resolves with no error), the run signs in with the same
  credentials right after signing up, then waits 1500 ms, and only then runs its
  post-auth routing (for a user with a non-empty id) and the success toast.
\<close>

theorem signUp_signs_in_then_delays:
  assumes "auth_signUp b email password role = Resolved signUpData"
    and "resp_error signUpData = None"
    and "resp_user signUpData = Some u"
    and "auth_signInWithPassword b email password = Resolved signInData"
    and "resp_error signInData = None"
  shows "signUp b email password role =
           [CallSignUp email password role, CallSignInWithPassword email password, Delay 1500]
           @ (if uid u \<noteq> []
              then [HandleAuthNavigation (uid u),
                    ToastSuccess ''Account created and logged in successfully!'']
              else [])"
  using assms by (simp add: signUp_def)

theorem signUp_signs_in_then_delays_witness:
  "signUp (constant_backend
       (Resolved \<lparr> resp_user = Some \<lparr> uid = ''u1'', mail = ''a@b.c'' \<rparr>, resp_error = None \<rparr>)
       (Resolved \<lparr> resp_user = Some \<lparr> uid = ''u1'', mail = ''a@b.c'' \<rparr>, resp_error = None \<rparr>)
       (Resolved None)) ''a@b.c'' ''secret'' ''volunteer''
   = [CallSignUp ''a@b.c'' ''secret'' ''volunteer'', CallSignInWithPassword ''a@b.c'' ''secret'',
      Delay 1500, HandleAuthNavigation ''u1'',
      ToastSuccess ''Account created and logged in successfully!'']"
  using signUp_signs_in_then_delays
    [of "constant_backend
       (Resolved \<lparr> resp_user = Some \<lparr> uid = ''u1'', mail = ''a@b.c'' \<rparr>, resp_error = None \<rparr>)
       (Resolved \<lparr> resp_user = Some \<lparr> uid = ''u1'', mail = ''a@b.c'' \<rparr>, resp_error = None \<rparr>)
       (Resolved None)" "''a@b.c''" "''secret''" "''volunteer''"
       "\<lparr> resp_user = Some \<lparr> uid = ''u1'', mail = ''a@b.c'' \<rparr>, resp_error = None \<rparr>"
       "\<lparr> uid = ''u1'', mail = ''a@b.c'' \<rparr>"
       "\<lparr> resp_user = Some \<lparr> uid = ''u1'', mail = ''a@b.c'' \<rparr>, resp_error = None \<rparr>"]
  by (simp add: constant_backend_def)

lemma provider_step_keeps_settled:
  "\<not> loading st \<Longrightarrow> \<not> loading (fst (provider_step st e))"
  by (cases e) (simp_all add: getSession_then_def onAuthStateChange_def)

lemma provider_step_settles:
  "settles e \<Longrightarrow> \<not> loading (fst (provider_step st e))"
  by (cases e) (simp_all add: getSession_then_def onAuthStateChange_def)

lemma provider_step_unsettled:
  "\<not> settles e \<Longrightarrow> fst (provider_step st e) = st"
  by (cases e) simp_all

lemma provider_run_keeps_settled:
  "\<not> loading st \<Longrightarrow> \<not> loading (provider_run st es)"
  by (induction es arbitrary: st) (simp_all add: provider_step_keeps_settled)

lemma provider_run_loading:
  "loading st \<Longrightarrow> loading (provider_run st es) = (\<not> list_ex settles es)"
proof (induction es arbitrary: st)
  case Nil
  then show ?case by simp
next
  case (Cons e es)
  show ?case
  proof (cases "settles e")
    case True
    then have "\<not> loading (provider_run (fst (provider_step st e)) es)"
      by (intro provider_run_keeps_settled provider_step_settles)
    with True show ?thesis by simp
  next
    case False
    with Cons show ?thesis by (simp add: provider_step_unsettled)
  qed
qed

text \<open>
  C8. \<open>loading\<close> starts true and is true only until the restore resolves or the first
  identity-change notification arrives: each of these two handlers leaves
  \<open>loading = false\<close>, no operation of the provider sets it back to true, and after any
  sequence of events \<open>loading\<close> is true exactly when none of them was a resolved restore or
  a notification.
\<close>

theorem loading_only_during_restore:
  "loading initial_auth_state
   \<and> \<not> loading (fst (provider_step st (GetSessionResolved session)))
   \<and> \<not> loading (fst (provider_step st (AuthStateChange event_name session)))
   \<and> (\<not> loading st \<longrightarrow> \<not> loading (fst (provider_step st e)))
   \<and> (\<not> loading st \<longrightarrow> \<not> loading (provider_run st es))
   \<and> loading (provider_run initial_auth_state es) = (\<not> list_ex settles es)"
proof -
  have "loading initial_auth_state" by (simp add: initial_auth_state_def)
  then show ?thesis
    using provider_step_settles [of "GetSessionResolved session" st]
      provider_step_settles [of "AuthStateChange event_name session" st]
      provider_step_keeps_settled [of st e] provider_run_keeps_settled [of st es]
      provider_run_loading [of initial_auth_state es]
    by simp
qed

theorem loading_only_during_restore_witness:
  "\<not> loading \<lparr> user = None, loading = False \<rparr>
   \<and> \<not> loading (fst (provider_step \<lparr> user = None, loading = False \<rparr>
        (SignOutCalled (constant_backend (Rejected (JsError ''x'')) (Rejected (JsError ''x''))
           (Resolved None)))))
   \<and> \<not> loading (provider_run \<lparr> user = None, loading = False \<rparr>
        [SignInCalled (constant_backend (Rejected (JsError ''x'')) (Rejected (JsError ''x''))
           (Resolved None)) ''a@b.c'' ''secret'',
         SignOutCalled (constant_backend (Rejected (JsError ''x'')) (Rejected (JsError ''x''))
           (Resolved None))])
   \<and> \<not> loading (provider_run initial_auth_state
        [SignOutCalled (constant_backend (Rejected (JsError ''x'')) (Rejected (JsError ''x''))
           (Resolved None)),
         AuthStateChange ''SIGNED_OUT'' None])"
  using loading_only_during_restore
    [of "\<lparr> user = None, loading = False \<rparr>" None "''SIGNED_OUT''"
        "SignOutCalled (constant_backend (Rejected (JsError ''x'')) (Rejected (JsError ''x''))
           (Resolved None))"
        "[SignInCalled (constant_backend (Rejected (JsError ''x'')) (Rejected (JsError ''x''))
           (Resolved None)) ''a@b.c'' ''secret'',
         SignOutCalled (constant_backend (Rejected (JsError ''x'')) (Rejected (JsError ''x''))
           (Resolved None))]"]
    loading_only_during_restore
    [of "\<lparr> user = None, loading = False \<rparr>" None "''SIGNED_OUT''"
        "SignOutCalled (constant_backend (Rejected (JsError ''x'')) (Rejected (JsError ''x''))
           (Resolved None))"
        "[SignOutCalled (constant_backend (Rejected (JsError ''x'')) (Rejected (JsError ''x''))
           (Resolved None)),
         AuthStateChange ''SIGNED_OUT'' None]"]
  by simp

section \<open>Properties of the channel life cycle\<close>

lemma replay_snoc: "replay (acts @ [a]) = replay_action (replay acts) a"
  by (simp add: replay_def)

lemma cleanup_events_inv:
  assumes "client_inv c eh rh"
  shows "client_inv (cleanup eh c) None rh"
proof (cases eh)
  case None
  with assms show ?thesis by (simp add: cleanup_def)
next
  case (Some ch)
  with assms show ?thesis
    by (cases rh)
       (auto simp: cleanup_def client_inv_def held_on_def held_list_def removeChannel_def replay_snoc)
qed

lemma cleanup_registrations_inv:
  assumes "client_inv c eh rh"
  shows "client_inv (cleanup rh c) eh None"
proof (cases rh)
  case None
  with assms show ?thesis by (simp add: cleanup_def)
next
  case (Some ch)
  with assms show ?thesis
    by (cases eh)
       (auto simp: cleanup_def client_inv_def held_on_def held_list_def removeChannel_def replay_snoc)
qed

lemma events_effect_inv:
  assumes "client_inv c None None" and "events_effect usr c = (eh, c')"
  shows "client_inv c' eh None"
  using assms
  by (cases usr)
     (auto simp: events_effect_def subscribe_def client_inv_def held_on_def held_list_def
        replay_snoc Let_def)

lemma registrations_effect_inv:
  assumes "client_inv c eh None" and "registrations_effect usr events c = (rh, c')"
  shows "client_inv c' eh rh"
proof (cases eh)
  case None
  with assms show ?thesis
    by (auto simp: registrations_effect_def subscribe_def client_inv_def held_on_def
          held_list_def replay_snoc Let_def split: option.splits if_splits)
next
  case (Some ch)
  with assms show ?thesis
    by (auto simp: registrations_effect_def subscribe_def client_inv_def held_on_def
          held_list_def replay_snoc Let_def split: option.splits if_splits)
qed

lemma unmounted_view_inv: "view_inv unmounted_view"
  by (simp add: view_inv_def unmounted_view_def client_inv_def new_client_def held_list_def
        held_on_def replay_def)

lemma mount_inv:
  assumes "view_inv v"
  shows "view_inv (view_step v (Mount usr events))"
proof (cases "mounted v")
  case True
  with assms show ?thesis by simp
next
  case False
  with assms have start: "client_inv (client v) None None"
    by (auto simp: view_inv_def)
  obtain eh c1 where e: "events_effect usr (client v) = (eh, c1)"
    by (cases "events_effect usr (client v)")
  obtain rh c2 where r: "registrations_effect usr events c1 = (rh, c2)"
    by (cases "registrations_effect usr events c1")
  from start e have "client_inv c1 eh None" by (rule events_effect_inv)
  then have "client_inv c2 eh rh" using r by (rule registrations_effect_inv)
  with False e r show ?thesis by (simp add: view_inv_def)
qed

lemma unmount_inv:
  assumes "view_inv v"
  shows "view_inv (view_step v Unmount)"
proof (cases "mounted v")
  case False
  with assms show ?thesis by simp
next
  case True
  from assms have "client_inv (client v) (events_held v) (registrations_held v)"
    by (simp add: view_inv_def)
  then have "client_inv (cleanup (events_held v) (client v)) None (registrations_held v)"
    by (rule cleanup_events_inv)
  then have "client_inv (cleanup (registrations_held v) (cleanup (events_held v) (client v))) None None"
    by (rule cleanup_registrations_inv)
  with True show ?thesis by (simp add: view_inv_def)
qed

lemma rerender_inv:
  assumes "view_inv v"
  shows "view_inv (view_step v (Rerender usr user_is_new events events_is_new))"
proof (cases "mounted v")
  case False
  with assms show ?thesis by simp
next
  case True
  from assms have start: "client_inv (client v) (events_held v) (registrations_held v)"
    by (simp add: view_inv_def)
  show ?thesis
  proof (cases "user_is_new \<or> usr \<noteq> view_user v")
    case user: True
    let ?c1 = "cleanup (events_held v) (client v)"
    let ?c2 = "cleanup (registrations_held v) ?c1"
    obtain eh c3 where e: "events_effect usr ?c2 = (eh, c3)"
      by (cases "events_effect usr ?c2")
    obtain rh c4 where r: "registrations_effect usr events c3 = (rh, c4)"
      by (cases "registrations_effect usr events c3")
    from start have "client_inv ?c1 None (registrations_held v)"
      by (rule cleanup_events_inv)
    then have "client_inv ?c2 None None" by (rule cleanup_registrations_inv)
    then have "client_inv c3 eh None" using e by (rule events_effect_inv)
    then have "client_inv c4 eh rh" using r by (rule registrations_effect_inv)
    with True user e r show ?thesis by (auto simp: view_inv_def)
  next
    case user: False
    show ?thesis
    proof (cases "events_is_new \<or> events \<noteq> view_events v")
      case ev: True
      let ?c2 = "cleanup (registrations_held v) (client v)"
      obtain rh c4 where r: "registrations_effect usr events ?c2 = (rh, c4)"
        by (cases "registrations_effect usr events ?c2")
      from start have "client_inv ?c2 (events_held v) None"
        by (rule cleanup_registrations_inv)
      then have "client_inv c4 (events_held v) rh" using r by (rule registrations_effect_inv)
      with True user ev r show ?thesis by (auto simp: view_inv_def)
    next
      case ev: False
      with True user start show ?thesis by (auto simp: view_inv_def)
    qed
  qed
qed

lemma view_step_inv: "view_inv v \<Longrightarrow> view_inv (view_step v e)"
  by (cases e) (simp_all only: mount_inv rerender_inv unmount_inv)

lemma view_run_inv: "view_inv v \<Longrightarrow> view_inv (view_run v es)"
  by (induction es arbitrary: v) (simp_all add: view_step_inv)

lemma client_inv_one_per_table:
  assumes "client_inv c eh rh"
  shows "distinct (map ch_table (channels c))"
  using assms
  by (auto simp: client_inv_def held_list_def held_on_def split: option.splits)

lemma distinct_subscriptions:
  assumes "distinct (map ch_table chs)"
  shows "distinct (map subscription_of chs)"
proof -
  have "map ch_table chs = map fst (map subscription_of chs)"
    by (simp add: subscription_of_def comp_def)
  with assms show ?thesis by (metis distinct_map)
qed

lemma filter_change_replaces:
  assumes inv: "view_inv v"
    and m: "mounted v"
    and u: "view_user v = Some u"
    and held: "registrations_held v = Some old"
    and ne: "events \<noteq> []"
    and changed: "Some events \<noteq> view_events v"
  shows "\<exists>new. history (client (view_step v (Rerender (Some u) False (Some events) False)))
                 = history (client v) @ [Removed old, Subscribed new]
             \<and> ch_filter new = registrations_filter (map ev_id events)
             \<and> registrations_held (view_step v (Rerender (Some u) False (Some events) False)) = Some new
             \<and> filter (\<lambda>ch. ch_table ch = ''registrations'')
                   (channels (client (view_step v (Rerender (Some u) False (Some events) False)))) = [new]"
proof -
  from inv have ci: "client_inv (client v) (events_held v) (Some old)"
    by (simp add: view_inv_def held)
  show ?thesis
  proof (cases "events_held v")
    case None
    with ci m u held ne changed show ?thesis
      by (simp add: client_inv_def held_list_def held_on_def cleanup_def removeChannel_def
            registrations_effect_def subscribe_def Let_def)
  next
    case (Some ech)
    with ci m u held ne changed show ?thesis
      by (simp add: client_inv_def held_list_def held_on_def cleanup_def removeChannel_def
            registrations_effect_def subscribe_def Let_def)
  qed
qed

text \<open>
  C9. In every state the dashboard reaches by mounting, re-rendering and unmounting, the
  open channels have pairwise different (table, filter) pairs; throughout the history
  every \<open>subscribe\<close> happened while no channel on its table was open; an unmounted view
  has no open channel; and when the events of a mounted view change while it holds a
  registrations channel, the commit first removes that channel and then subscribes the
  replacement, whose filter is built from the new event ids and which is afterwards the
  only open registrations channel.
\<close>

theorem one_channel_per_subscription:
  assumes "v = view_run unmounted_view evs"
  shows "distinct (map subscription_of (channels (client v)))
    \<and> closed_before_reopened (history (client v))
    \<and> (mounted v \<or> channels (client v) = [])
    \<and> (mounted v \<and> view_user v = Some u \<and> registrations_held v = Some old
          \<and> events \<noteq> [] \<and> Some events \<noteq> view_events v \<longrightarrow>
        (\<exists>new. history (client (view_step v (Rerender (Some u) False (Some events) False)))
                  = history (client v) @ [Removed old, Subscribed new]
              \<and> ch_filter new = registrations_filter (map ev_id events)
              \<and> registrations_held (view_step v (Rerender (Some u) False (Some events) False))
                  = Some new
              \<and> filter (\<lambda>ch. ch_table ch = ''registrations'')
                    (channels (client (view_step v (Rerender (Some u) False (Some events) False))))
                  = [new]))"
proof -
  from assms have inv: "view_inv v"
    by (simp add: view_run_inv unmounted_view_inv)
  then have ci: "client_inv (client v) (events_held v) (registrations_held v)"
    by (simp add: view_inv_def)
  from ci have "distinct (map ch_table (channels (client v)))"
    by (rule client_inv_one_per_table)
  then have a: "distinct (map subscription_of (channels (client v)))"
    by (rule distinct_subscriptions)
  from ci have b: "closed_before_reopened (history (client v))"
    by (simp add: client_inv_def closed_before_reopened_def)
  from inv have c: "mounted v \<or> channels (client v) = []"
    by (auto simp: view_inv_def client_inv_def held_list_def)
  from inv filter_change_replaces [of v u old events] a b c show ?thesis
    by blast
qed

lemma example_view_state:
  "mounted example_view \<and> view_user example_view = Some example_user
   \<and> view_events example_view = Some [example_event ''1'', example_event ''2'']
   \<and> registrations_held example_view = Some example_channel"
  by (simp add: example_view_def unmounted_view_def new_client_def events_effect_def
        registrations_effect_def subscribe_def example_channel_def events_filter_def
        registrations_filter_def example_user_def example_event_def Let_def)

theorem one_channel_per_subscription_witness:
  "example_view = view_run unmounted_view
      [Mount (Some example_user) (Some [example_event ''1'', example_event ''2''])]
   \<and> mounted example_view \<and> view_user example_view = Some example_user
   \<and> registrations_held example_view = Some example_channel
   \<and> [example_event ''1'', example_event ''2'', example_event ''3''] \<noteq> []
   \<and> Some [example_event ''1'', example_event ''2'', example_event ''3'']
       \<noteq> view_events example_view
   \<and> distinct (map subscription_of (channels (client example_view)))
   \<and> closed_before_reopened (history (client example_view))
   \<and> (\<exists>new.
         history (client (view_step example_view (Rerender (Some example_user) False
            (Some [example_event ''1'', example_event ''2'', example_event ''3'']) False)))
           = history (client example_view) @ [Removed example_channel, Subscribed new]
         \<and> ch_filter new = ''event_id=in.(1,2,3)''
         \<and> filter (\<lambda>ch. ch_table ch = ''registrations'')
              (channels (client (view_step example_view (Rerender (Some example_user) False
                 (Some [example_event ''1'', example_event ''2'', example_event ''3'']) False))))
             = [new])"
proof -
  have run: "example_view = view_run unmounted_view
      [Mount (Some example_user) (Some [example_event ''1'', example_event ''2''])]"
    by (simp only: example_view_def)
  have ne: "[example_event ''1'', example_event ''2'', example_event ''3''] \<noteq> []"
    by simp
  have changed: "Some [example_event ''1'', example_event ''2'', example_event ''3'']
       \<noteq> view_events example_view"
    by (simp add: example_view_state)
  have flt: "registrations_filter
       (map ev_id [example_event ''1'', example_event ''2'', example_event ''3''])
       = ''event_id=in.(1,2,3)''"
    by (simp add: registrations_filter_def example_event_def)
  from one_channel_per_subscription
         [OF run, of example_user example_channel
            "[example_event ''1'', example_event ''2'', example_event ''3'']"]
       run ne changed example_view_state
  show ?thesis
    unfolding flt by blast
qed

section \<open>Properties of the change-notification callbacks\<close>

lemma keys_differ:
  "organization_events_key u \<noteq> organization_registrations_key u'"
  by (simp add: organization_events_key_def organization_registrations_key_def)

lemma isInvalidated_invalidated:
  "map_option isInvalidated (map_option invalidated v) = map_option (\<lambda>e. True) v"
  by (cases v) (simp_all add: invalidated_def)

text \<open>
  C2. Whatever the notification delivered to it, the callback of the registrations
  channel invalidates the organization's registrations key and its events key, and the
  callback of the events channel invalidates the events key: a query cached under such a
  key stays cached and has \<open>isInvalidated = true\<close> afterwards, and every other key is
  left as it was. The channel that the registrations effect subscribes is on the table
  \<open>registrations\<close> and carries the first callback, the channel of the events effect is on
  the table \<open>events\<close> and carries the second.
\<close>

theorem change_notification_invalidates:
  "snd (registrations_changed u p qc) =
     (\<lambda>k. if k = organization_registrations_key (Some u) \<or> k = organization_events_key (Some u)
          then map_option invalidated (qc k) else qc k)
   \<and> snd (events_changed u p qc) =
     (\<lambda>k. if k = organization_events_key (Some u) then map_option invalidated (qc k) else qc k)
   \<and> map_option isInvalidated
         (snd (registrations_changed u p qc) (organization_registrations_key (Some u)))
       = map_option (\<lambda>e. True) (qc (organization_registrations_key (Some u)))
   \<and> map_option isInvalidated
         (snd (registrations_changed u p qc) (organization_events_key (Some u)))
       = map_option (\<lambda>e. True) (qc (organization_events_key (Some u)))
   \<and> map_option isInvalidated
         (snd (events_changed u p qc) (organization_events_key (Some u)))
       = map_option (\<lambda>e. True) (qc (organization_events_key (Some u)))
   \<and> (registrations_effect (Some u) events c = (Some ch, c') \<longrightarrow>
        ch_table ch = ''registrations'' \<and> run_callback (ch_callback ch) = registrations_changed u)
   \<and> (events_effect (Some u) c = (Some ch, c') \<longrightarrow>
        ch_table ch = ''events'' \<and> run_callback (ch_callback ch) = events_changed u)"
proof -
  have r: "snd (registrations_changed u p qc) =
     (\<lambda>k. if k = organization_registrations_key (Some u) \<or> k = organization_events_key (Some u)
          then map_option invalidated (qc k) else qc k)"
    using keys_differ [of "Some u" "Some u"]
    by (auto simp: registrations_changed_def invalidateQueries_def fun_eq_iff)
  have e: "snd (events_changed u p qc) =
     (\<lambda>k. if k = organization_events_key (Some u) then map_option invalidated (qc k) else qc k)"
    by (simp add: events_changed_def invalidateQueries_def)
  have fr: "map_option isInvalidated
         (snd (registrations_changed u p qc) (organization_registrations_key (Some u)))
       = map_option (\<lambda>e. True) (qc (organization_registrations_key (Some u)))"
    unfolding r by (simp add: isInvalidated_invalidated)
  have fe: "map_option isInvalidated
         (snd (registrations_changed u p qc) (organization_events_key (Some u)))
       = map_option (\<lambda>e. True) (qc (organization_events_key (Some u)))"
    unfolding r by (simp add: isInvalidated_invalidated)
  have fee: "map_option isInvalidated
         (snd (events_changed u p qc) (organization_events_key (Some u)))
       = map_option (\<lambda>e. True) (qc (organization_events_key (Some u)))"
    unfolding e by (simp add: isInvalidated_invalidated)
  have rc: "registrations_effect (Some u) events c = (Some ch, c') \<longrightarrow>
        ch_table ch = ''registrations'' \<and> run_callback (ch_callback ch) = registrations_changed u"
    by (auto simp: registrations_effect_def subscribe_def Let_def fun_eq_iff
          split: option.splits if_splits)
  have ec: "events_effect (Some u) c = (Some ch, c') \<longrightarrow>
        ch_table ch = ''events'' \<and> run_callback (ch_callback ch) = events_changed u"
    by (auto simp: events_effect_def subscribe_def Let_def fun_eq_iff)
  from r e fr fe fee rc ec show ?thesis by blast
qed

theorem change_notification_invalidates_witness:
  "registrations_effect (Some example_user) (Some [example_event ''1'', example_event ''2''])
       new_client
     = (Some (example_channel\<lparr> ch_ref := 0 \<rparr>),
        snd (registrations_effect (Some example_user)
               (Some [example_event ''1'', example_event ''2'']) new_client))
   \<and> ch_table (example_channel\<lparr> ch_ref := 0 \<rparr>) = ''registrations''
   \<and> run_callback (ch_callback (example_channel\<lparr> ch_ref := 0 \<rparr>))
       = registrations_changed example_user
   \<and> events_effect (Some example_user) new_client
     = (Some \<lparr> ch_ref = 0, ch_name = ''organization-events-changes'', ch_event = ''*'',
               ch_schema = ''public'', ch_table = ''events'',
               ch_filter = ''organization_id=eq.org-1'',
               ch_callback = EventsChanged example_user \<rparr>,
        snd (events_effect (Some example_user) new_client))
   \<and> run_callback (ch_callback
         \<lparr> ch_ref = 0, ch_name = ''organization-events-changes'', ch_event = ''*'',
           ch_schema = ''public'', ch_table = ''events'',
           ch_filter = ''organization_id=eq.org-1'',
           ch_callback = EventsChanged example_user \<rparr>)
       = events_changed example_user
   \<and> map_option isInvalidated
         (snd (registrations_changed example_user example_payload example_cache)
            (organization_registrations_key (Some example_user))) = Some True
   \<and> map_option isInvalidated
         (snd (registrations_changed example_user example_payload example_cache)
            (organization_events_key (Some example_user))) = Some True
   \<and> map_option isInvalidated
         (snd (events_changed example_user example_payload example_cache)
            (organization_events_key (Some example_user))) = Some True"
proof -
  have r: "registrations_effect (Some example_user)
       (Some [example_event ''1'', example_event ''2'']) new_client
     = (Some (example_channel\<lparr> ch_ref := 0 \<rparr>),
        snd (registrations_effect (Some example_user)
               (Some [example_event ''1'', example_event ''2'']) new_client))"
    by (simp add: registrations_effect_def subscribe_def new_client_def example_channel_def
          registrations_filter_def example_event_def Let_def)
  have e: "events_effect (Some example_user) new_client
     = (Some \<lparr> ch_ref = 0, ch_name = ''organization-events-changes'', ch_event = ''*'',
               ch_schema = ''public'', ch_table = ''events'',
               ch_filter = ''organization_id=eq.org-1'',
               ch_callback = EventsChanged example_user \<rparr>,
        snd (events_effect (Some example_user) new_client))"
    by (simp add: events_effect_def subscribe_def new_client_def events_filter_def
          example_user_def Let_def)
  have cached:
    "map_option (\<lambda>e. True) (example_cache (organization_registrations_key (Some example_user)))
       = Some True"
    "map_option (\<lambda>e. True) (example_cache (organization_events_key (Some example_user)))
       = Some True"
    by (simp_all add: example_cache_def)
  from r e cached
    change_notification_invalidates
      [of example_user example_payload example_cache
          "Some [example_event ''1'', example_event ''2'']" new_client
          "example_channel\<lparr> ch_ref := 0 \<rparr>"
          "snd (registrations_effect (Some example_user)
               (Some [example_event ''1'', example_event ''2'']) new_client)"]
    change_notification_invalidates
      [of example_user example_payload example_cache _ new_client
          "\<lparr> ch_ref = 0, ch_name = ''organization-events-changes'', ch_event = ''*'',
             ch_schema = ''public'', ch_table = ''events'',
             ch_filter = ''organization_id=eq.org-1'',
             ch_callback = EventsChanged example_user \<rparr>"
          "snd (events_effect (Some example_user) new_client)"]
  show ?thesis by metis
qed

section \<open>Properties of the registrations fetch\<close>

text \<open>
  C5 (as the spec words it, refuted). The spec has every registration returned with its
  email field equal to null when the email lookup fails. The code returns the rows of
  the primary select as they are: they have no \<open>user_email\<close> property, so the field
  reads \<open>undefined\<close>, whereas the path of a successful lookup does write \<open>null\<close> for a
  row without a user id.
\<close>

theorem email_lookup_failure_counterexample:
  "snd (registrations_queryFn
          (constant_store (Inr [example_row]) (Inl (JsError ''permission denied'')))
          (Some [example_event ''1'']))
     = Inr [\<lparr> row = example_row, user_email = Undefined \<rparr>]
   \<and> user_email \<lparr> row = example_row, user_email = Undefined \<rparr> \<noteq> Null"
  by (simp add: registrations_queryFn_def constant_store_def userIds_of_def example_row_def
        truthy_def unenriched_def)

text \<open>
  C5 (amended). When the secondary email lookup is made and fails, the fetch does not
  fail: it resolves to every registration row, in the order of the primary select and
  unchanged, each without an email (\<open>user_email\<close> is not set and reads \<open>undefined\<close>), and
  the lookup's error is logged with \<open>console.error\<close>.
\<close>

theorem email_lookup_failure_not_fatal:
  assumes "events = Some es" and "es \<noteq> []"
    and "select_registrations st (map ev_id es) = Inr data"
    and "userIds_of data \<noteq> []"
    and "select_user_emails st (userIds_of data) = Inl emailError"
  shows "registrations_queryFn st events
           = ([ConsoleError ''Error fetching user emails:'' emailError], Inr (map unenriched data))
    \<and> map row (map unenriched data) = data
    \<and> list_all (\<lambda>reg. user_email reg = Undefined) (map unenriched data)"
proof -
  have "registrations_queryFn st events
          = ([ConsoleError ''Error fetching user emails:'' emailError], Inr (map unenriched data))"
    using assms by (simp add: registrations_queryFn_def)
  moreover have "map row (map unenriched data) = data"
    by (induction data) (simp_all add: unenriched_def)
  moreover have "list_all (\<lambda>reg. user_email reg = Undefined) (map unenriched data)"
    by (induction data) (simp_all add: unenriched_def)
  ultimately show ?thesis by blast
qed

theorem email_lookup_failure_not_fatal_witness:
  "registrations_queryFn
      (constant_store (Inr [example_row]) (Inl (JsError ''permission denied'')))
      (Some [example_event ''1''])
     = ([ConsoleError ''Error fetching user emails:'' (JsError ''permission denied'')],
        Inr [\<lparr> row = example_row, user_email = Undefined \<rparr>])"
proof -
  have ids: "userIds_of [example_row] = [''vol-1'']"
    by (simp add: userIds_of_def example_row_def truthy_def)
  from email_lookup_failure_not_fatal
         [of "Some [example_event ''1'']" "[example_event ''1'']"
             "constant_store (Inr [example_row]) (Inl (JsError ''permission denied''))"
             "[example_row]" "JsError ''permission denied''"]
  show ?thesis
    by (simp add: constant_store_def ids unenriched_def)
qed

end
